theory Spec2Isabelle
  imports Main "HOL-Library.Sublist"
begin

section \<open>JavaScript primitives used by the download service\<close>

text \<open>
  The service is the Express application of \<^verbatim>\<open>src/unnamed/part_001\<close>; the serverless
  handler \<^verbatim>\<open>src/api/download.js\<close> repeats its YouTube path with small differences and is
  modelled next to it. JavaScript numbers are modelled as \<open>int\<close> (bitrates, frame rates and
  byte counts are whole numbers), \<open>NaN\<close> and \<open>undefined\<close> as \<open>None\<close>. Strings are
  \<open>char list\<close>; only ASCII matters for the patterns the code searches for.
\<close>

subsection \<open>\<^verbatim>\<open>String.prototype.includes\<close> and \<^verbatim>\<open>String.prototype.replace\<close>\<close>

fun str_includes :: "string \<Rightarrow> string \<Rightarrow> bool" where
  "str_includes [] t = (t = [])"
| "str_includes (c # cs) t = (prefix t (c # cs) \<or> str_includes cs t)"

text \<open>\<open>s.replace(pat, rep)\<close> with a string pattern: only the first occurrence is replaced.\<close>

fun replace_first :: "string \<Rightarrow> string \<Rightarrow> string \<Rightarrow> string" where
  "replace_first pat rep [] = (if pat = [] then rep else [])"
| "replace_first pat rep (c # cs) =
     (if prefix pat (c # cs) then rep @ drop (length pat) (c # cs)
      else c # replace_first pat rep cs)"

text \<open>\<open>s.replace(/[<>:"/\\|?*]+/g, '')\<close>: every character of the class is deleted.\<close>

definition unsafe_chars :: "char list" where
  "unsafe_chars = [CHR ''<'', CHR ''>'', CHR '':'', CHR 0x22, CHR ''/'', CHR 0x5C,
                   CHR ''|'', CHR ''?'', CHR ''*'']"

definition sanitize :: "string \<Rightarrow> string" where
  "sanitize s = filter (\<lambda>c. c \<notin> set unsafe_chars) s"

text \<open>\<open>toUpperCase\<close> on the ASCII letters (other bytes are left as they are).\<close>

definition upper_char :: "char \<Rightarrow> char" where
  "upper_char c =
     (let n = (of_char c :: nat) in if 97 \<le> n \<and> n \<le> 122 then char_of (n - 32) else c)"

definition toUpperCase :: "string \<Rightarrow> string" where
  "toUpperCase s = map upper_char s"

subsection \<open>\<^verbatim>\<open>parseInt\<close>\<close>

text \<open>
  \<open>parseInt(string)\<close> without a radix: leading white space is skipped, a sign is read,
  a \<open>0x\<close>/\<open>0X\<close> prefix switches to radix 16, and the longest run of digits is
  converted; with no digit the result is \<open>NaN\<close> (\<open>None\<close>).
\<close>

definition is_space :: "char \<Rightarrow> bool" where
  "is_space c = ((of_char c :: nat) \<in> {9, 10, 11, 12, 13, 32})"

definition digit_of :: "nat \<Rightarrow> char \<Rightarrow> nat option" where
  "digit_of radix c =
     (let n = (of_char c :: nat);
          v = (if 48 \<le> n \<and> n \<le> 57 then Some (n - 48)
               else if 97 \<le> n \<and> n \<le> 122 then Some (n - 87)
               else if 65 \<le> n \<and> n \<le> 90 then Some (n - 55)
               else None)
      in case v of None \<Rightarrow> None | Some d \<Rightarrow> if d < radix then Some d else None)"

fun digits_value :: "nat \<Rightarrow> nat option \<Rightarrow> string \<Rightarrow> nat option" where
  "digits_value radix acc [] = acc"
| "digits_value radix acc (c # cs) =
     (case digit_of radix c of
        None \<Rightarrow> acc
      | Some d \<Rightarrow> digits_value radix (Some ((case acc of None \<Rightarrow> 0 | Some a \<Rightarrow> a) * radix + d)) cs)"

definition parseInt_string :: "string \<Rightarrow> int option" where
  "parseInt_string s =
     (let s1 = dropWhile is_space s;
          neg = (s1 \<noteq> [] \<and> hd s1 = CHR ''-'');
          s2 = (if s1 \<noteq> [] \<and> (hd s1 = CHR ''-'' \<or> hd s1 = CHR ''+'') then tl s1 else s1);
          hex = (prefix ''0x'' s2 \<or> prefix ''0X'' s2);
          s3 = (if hex then drop 2 s2 else s2)
      in case digits_value (if hex then 16 else 10) None s3 of
           None \<Rightarrow> None
         | Some v \<Rightarrow> Some (if neg then - int v else int v))"

text \<open>\<open>parseInt(x)\<close> of an absent property reads the string \<open>"undefined"\<close>: \<open>NaN\<close>.\<close>

definition parseInt :: "string option \<Rightarrow> int option" where
  "parseInt x = (case x of None \<Rightarrow> None | Some s \<Rightarrow> parseInt_string s)"

text \<open>\<open>x || 0\<close> on a number: \<open>undefined\<close>, \<open>NaN\<close> and \<open>0\<close> all give \<open>0\<close>.\<close>

definition or0 :: "int option \<Rightarrow> int" where
  "or0 x = (case x of None \<Rightarrow> 0 | Some v \<Rightarrow> v)"

subsection \<open>\<^verbatim>\<open>Array.prototype.sort\<close> with a comparator\<close>

text \<open>
  The comparator's result \<open>v\<close> is read as ECMAScript's SortCompare reads it: \<open>NaN\<close>
  counts as \<open>+0\<close>. The sort is stable: an element moves in front of another only when the
  comparator says strictly so. (For a comparator that is not a consistent ordering the
  standard leaves the order to the engine; every claim below is settled on inputs where
  the comparator is consistent.)
\<close>

definition sortCompare :: "('a \<Rightarrow> 'a \<Rightarrow> int option) \<Rightarrow> 'a \<Rightarrow> 'a \<Rightarrow> int" where
  "sortCompare comparefn x y = (case comparefn x y of None \<Rightarrow> 0 | Some v \<Rightarrow> v)"

fun place :: "('a \<Rightarrow> 'a \<Rightarrow> int option) \<Rightarrow> 'a \<Rightarrow> 'a list \<Rightarrow> 'a list" where
  "place comparefn x [] = [x]"
| "place comparefn x (y # ys) =
     (if sortCompare comparefn x y > 0 then y # place comparefn x ys else x # y # ys)"

fun js_sort :: "('a \<Rightarrow> 'a \<Rightarrow> int option) \<Rightarrow> 'a list \<Rightarrow> 'a list" where
  "js_sort comparefn [] = []"
| "js_sort comparefn (x # xs) = place comparefn x (js_sort comparefn xs)"

text \<open>\<open>xs[0]\<close>: \<open>undefined\<close> on the empty array.\<close>

definition first :: "'a list \<Rightarrow> 'a option" where
  "first xs = (case xs of [] \<Rightarrow> None | x # _ \<Rightarrow> Some x)"

section \<open>The format selector\<close>

text \<open>
  A numeric property that is subtracted without a guard: it holds a number, holds
  \<open>null\<close>, or is absent (\<open>undefined\<close>). \<open>ToNumber\<close> turns \<open>null\<close> into \<open>0\<close> and
  \<open>undefined\<close> into \<open>NaN\<close>.
\<close>

datatype optnum = Undefined | Null | Num int

fun toNumber :: "optnum \<Rightarrow> int option" where
  "toNumber Undefined = None"
| "toNumber Null = Some 0"
| "toNumber (Num n) = Some n"

text \<open>
  An entry of \<open>info.formats\<close> as ytdl-core returns it (the fields the service reads).
  The other optional numbers are only read through \<open>|| 0\<close> or \<open>parseInt\<close>, where
  \<open>null\<close> and \<open>undefined\<close> behave alike: they are \<open>None\<close>. The container and the
  video title are strings, as the type declarations of ytdl-core have them.
\<close>

record videoFormat =
  hasAudio :: bool
  hasVideo :: bool
  bitrate :: optnum
  qualityLabel :: "string option"
  fps :: "int option"
  container :: string
  contentLength :: "string option"
  format_url :: "string option"

text \<open>\<open>(a, b) => b.bitrate - a.bitrate\<close>: \<open>NaN\<close> as soon as one bitrate is \<open>undefined\<close>.\<close>

definition audio_compare :: "videoFormat \<Rightarrow> videoFormat \<Rightarrow> int option" where
  "audio_compare a b =
     (case (toNumber (bitrate b), toNumber (bitrate a)) of
        (Some y, Some x) \<Rightarrow> Some (y - x)
      | _ \<Rightarrow> None)"

definition video_compare :: "videoFormat \<Rightarrow> videoFormat \<Rightarrow> int option" where
  "video_compare a b =
     (let aQuality = or0 (parseInt (qualityLabel a));
          bQuality = or0 (parseInt (qualityLabel b))
      in if aQuality \<noteq> bQuality then Some (bQuality - aQuality)
         else Some (or0 (fps b) - or0 (fps a)))"

text \<open>Lines 71--86 of \<open>getYouTubeInfo\<close> (and lines 54--68 of \<^verbatim>\<open>api/download.js\<close>).\<close>

definition selectFormat :: "string \<Rightarrow> videoFormat list \<Rightarrow> videoFormat option" where
  "selectFormat type formats =
     (if type = ''audio''
      then first (js_sort audio_compare (filter (\<lambda>f. hasAudio f \<and> \<not> hasVideo f) formats))
      else first (js_sort video_compare (filter (\<lambda>f. hasVideo f \<and> hasAudio f) formats)))"

section \<open>External collaborators\<close>

text \<open>
  The libraries the service calls are parameters of the model. A rejected promise or a
  thrown \<open>Error\<close> is \<open>Inl message\<close>. The generic engine is called with an options object
  that depends on the requested type only, so its model takes the type.
  \<open>renderSize\<close> stands for the floating-point part of \<open>formatFileSize\<close>
  (\<open>Math.log\<close>, \<open>toFixed\<close>, \<open>parseFloat\<close>) and \<open>renderMB\<close> for the KB/MB rounding of
  \<^verbatim>\<open>api/download.js\<close>; floating point is not modelled.
\<close>

record videoInfo =
  videoDetails_title :: string
  formats :: "videoFormat list"

record genericFormat =
  g_url :: "string option"
  abr :: "int option"
  height :: "int option"
  g_filesize :: "int option"
  ext :: "string option"

record genericInfo =
  info_url :: "string option"
  info_formats :: "genericFormat list option"
  info_title :: "string option"

record env =
  isUri :: "string \<Rightarrow> bool"
  hostname :: "string \<Rightarrow> string option"
  getInfo :: "string \<Rightarrow> string + videoInfo"
  youtubedl :: "string \<Rightarrow> string \<Rightarrow> string + genericInfo option"
  youtubedl_getUrl :: "string \<Rightarrow> string \<Rightarrow> string + string"
  getInstagram :: "string \<Rightarrow> string + string list option option"
  renderSize :: "int \<Rightarrow> string"
  renderMB :: "string \<Rightarrow> string"

text \<open>
  What a request does besides answering: the providers it contacts and the lines it logs
  (a logged \<open>Error\<close> object is represented by its message).
\<close>

datatype provider = YtdlCore | YoutubeDl | InstagramDirect

datatype event = Contacted provider string | Logged string

text \<open>The object an adapter returns; \<open>download_url\<close> may be \<open>undefined\<close>.\<close>

record resolved =
  title :: string
  format :: string
  filesize :: string
  download_url :: "string option"

text \<open>Truthiness of an optional string: \<open>undefined\<close> and \<open>''\<close> are falsy.\<close>

definition truthy :: "string option \<Rightarrow> bool" where
  "truthy x = (case x of None \<Rightarrow> False | Some s \<Rightarrow> s \<noteq> [])"

text \<open>\<open>x || d\<close> on an optional string.\<close>

definition or_else :: "string option \<Rightarrow> string \<Rightarrow> string" where
  "or_else x d = (case x of None \<Rightarrow> d | Some s \<Rightarrow> if s \<noteq> [] then s else d)"

section \<open>The URL validator\<close>

definition getDomain :: "env \<Rightarrow> string \<Rightarrow> string option" where
  "getDomain E url =
     (case hostname E url of
        None \<Rightarrow> None
      | Some h \<Rightarrow> Some (replace_first ''www.'' [] h))"

definition allowedDomains :: "string list" where
  "allowedDomains =
     [''youtube.com'', ''youtu.be'', ''tiktok.com'', ''instagram.com'',
      ''facebook.com'', ''fb.watch'', ''twitter.com'', ''x.com'',
      ''reddit.com'', ''vimeo.com'', ''dailymotion.com'', ''bilibili.com'',
      ''twitch.tv'', ''vimeo.com'', ''soundcloud.com'', ''streamable.com'']"

text \<open>\<open>{ valid: false, error }\<close> is \<open>Invalid error\<close>, \<open>{ valid: true, domain }\<close> is \<open>Valid domain\<close>.\<close>

datatype validation = Invalid string | Valid string

definition validateVideoUrl :: "env \<Rightarrow> string \<Rightarrow> validation" where
  "validateVideoUrl E url =
     (if \<not> isUri E url then Invalid ''Invalid URL format''
      else case getDomain E url of
             None \<Rightarrow> Invalid ''Invalid URL''
           | Some domain \<Rightarrow>
               if domain = [] then Invalid ''Invalid URL''
               else if \<not> list_ex (\<lambda>allowed. str_includes domain allowed) allowedDomains
               then Invalid ''Website not supported. Please check the URL.''
               else Valid domain)"

section \<open>The adapters\<close>

definition formatFileSize :: "env \<Rightarrow> int \<Rightarrow> string" where
  "formatFileSize E bytes = (if bytes = 0 then ''0 Bytes'' else renderSize E bytes)"

definition youtube_failure :: string where
  "youtube_failure = ''Failed to fetch YouTube video. Make sure the video is public.''"

text \<open>
  \<open>getYouTubeInfo\<close>: everything happens inside one \<open>try\<close>, whose \<open>catch\<close> logs the
  message and throws the fixed \<open>youtube_failure\<close> error instead.
\<close>

definition getYouTubeInfo :: "env \<Rightarrow> string \<Rightarrow> string \<Rightarrow> (string + resolved) \<times> event list" where
  "getYouTubeInfo E url type =
     (case getInfo E url of
        Inl msg \<Rightarrow>
          (Inl youtube_failure,
           [Contacted YtdlCore url, Logged (''YouTube error: '' @ msg)])
      | Inr info \<Rightarrow>
          (case selectFormat type (formats info) of
             None \<Rightarrow>
               (Inl youtube_failure,
                [Contacted YtdlCore url, Logged (''YouTube error: '' @ ''No suitable format found'')])
           | Some fmt \<Rightarrow>
               (let downloadUrl = format_url fmt;
                    contentLength = or_else (contentLength fmt) ''Unknown''
                in (Inr \<lparr>title = sanitize (videoDetails_title info),
                         format = (if type = ''audio'' then ''MP3'' else toUpperCase (container fmt)),
                         filesize = formatFileSize E (or0 (parseInt_string contentLength)),
                         download_url = downloadUrl\<rparr>,
                    [Contacted YtdlCore url]))))"

text \<open>The comparator of the generic adapter's \<open>info.formats.sort\<close>.\<close>

definition generic_compare :: "string \<Rightarrow> genericFormat \<Rightarrow> genericFormat \<Rightarrow> int option" where
  "generic_compare type a b =
     (if type = ''audio'' then Some (or0 (abr b) - or0 (abr a))
      else Some (or0 (height b) - or0 (height a)))"

text \<open>The \<open>try\<close> block of \<open>getGenericInfo\<close> (lines 109--168).\<close>

definition genericTry :: "env \<Rightarrow> string \<Rightarrow> string \<Rightarrow> (string + resolved) \<times> event list" where
  "genericTry E url type =
     (case youtubedl E url type of
        Inl msg \<Rightarrow> (Inl msg, [Contacted YoutubeDl url])
      | Inr None \<Rightarrow> (Inl ''No video information found'', [Contacted YoutubeDl url])
      | Inr (Some info) \<Rightarrow>
          (let format0 = (if type = ''audio'' then ''MP3'' else ''MP4'');
               chosen =
                 (if truthy (info_url info) then Some (info_url info, ''Unknown'', format0)
                  else case info_formats info of
                         None \<Rightarrow> None
                       | Some fs \<Rightarrow>
                           (case first (js_sort (generic_compare type) fs) of
                              None \<Rightarrow> None
                            | Some bestFormat \<Rightarrow>
                                Some (g_url bestFormat,
                                      formatFileSize E (or0 (g_filesize bestFormat)),
                                      (if truthy (ext bestFormat)
                                       then toUpperCase (or_else (ext bestFormat) [])
                                       else format0))))
           in case chosen of
                None \<Rightarrow> (Inl ''No download link available'', [Contacted YoutubeDl url])
              | Some (downloadUrl, fsize, fmt) \<Rightarrow>
                  (let ttl = sanitize (or_else (info_title info) ''video'')
                   in if truthy downloadUrl
                      then (Inr \<lparr>title = ttl, format = fmt, filesize = fsize,
                                 download_url = downloadUrl\<rparr>,
                            [Contacted YoutubeDl url])
                      else case youtubedl_getUrl E url type of
                             Inl msg \<Rightarrow> (Inl msg, [Contacted YoutubeDl url, Contacted YoutubeDl url])
                           | Inr execResult \<Rightarrow>
                               (Inr \<lparr>title = ttl, format = fmt, filesize = fsize,
                                     download_url = Some execResult\<rparr>,
                                [Contacted YoutubeDl url, Contacted YoutubeDl url]))))"

text \<open>\<open>getGenericInfo\<close>: the \<open>try\<close> block, then the \<open>catch\<close> with the Instagram fallback.\<close>

definition getGenericInfo :: "env \<Rightarrow> string \<Rightarrow> string \<Rightarrow> (string + resolved) \<times> event list" where
  "getGenericInfo E url type =
     (case genericTry E url type of
        (Inr r, tr) \<Rightarrow> (Inr r, tr)
      | (Inl msg, tr) \<Rightarrow>
          (let tr1 = tr @ [Logged (''Generic download error: '' @ msg)];
               rethrown = Inl (''Failed to download video: '' @ msg)
           in if str_includes url ''instagram.com''
              then (case getInstagram E url of
                      Inl igmsg \<Rightarrow>
                        (rethrown,
                         tr1 @ [Contacted InstagramDirect url,
                                Logged (''Instagram fallback failed: '' @ igmsg)])
                    | Inr (Some (Some (link # links))) \<Rightarrow>
                        (Inr \<lparr>title = ''Instagram Video'', format = ''MP4'',
                              filesize = ''Unknown'', download_url = Some link\<rparr>,
                         tr1 @ [Contacted InstagramDirect url])
                    | Inr _ \<Rightarrow> (rethrown, tr1 @ [Contacted InstagramDirect url]))
              else (rethrown, tr1)))"

section \<open>The download endpoint\<close>

text \<open>
  \<open>req.body\<close> once it is an object: the two properties the handlers read. The request
  itself carries a \<open>body option\<close>: \<open>None\<close> is a request without a parsed body
  (\<open>req.body\<close> is \<open>undefined\<close>). Both handlers destructure \<open>req.body\<close> as the first
  statement of their \<open>try\<close>; on \<open>undefined\<close> that throws a \<open>TypeError\<close>, whose
  message (as Node words it) is \<open>destructure_error\<close>.
\<close>

record body =
  body_url :: "string option"
  body_type :: "string option"

definition destructure_error :: string where
  "destructure_error =
     ''Cannot destructure property '' @ [CHR 0x27] @ ''url'' @ [CHR 0x27] @ '' of ''
       @ [CHR 0x27] @ ''req.body'' @ [CHR 0x27] @ '' as it is undefined.''"

text \<open>
  \<open>res.json(payload)\<close> is \<open>Success payload\<close> (status 200), \<open>res.status(code).json({error})\<close>
  is \<open>Failure code error\<close>, \<open>res.status(code).end()\<close> is \<open>Ended code\<close>.
\<close>

datatype response = Success resolved | Failure nat string | Ended nat

fun status :: "response \<Rightarrow> nat" where
  "status (Success r) = 200"
| "status (Failure code msg) = code"
| "status (Ended code) = code"

text \<open>The chain of \<open>error.message.includes\<close> tests in the endpoint's \<open>catch\<close>.\<close>

definition translate :: "string \<Rightarrow> string" where
  "translate message =
     (if str_includes message ''private'' \<or> str_includes message ''unavailable''
      then ''Video is private or unavailable''
      else if str_includes message ''copyright'' \<or> str_includes message ''restricted''
      then ''Video is copyright restricted''
      else if str_includes message ''not found'' \<or> str_includes message ''404''
      then ''Video not found. Please check the URL''
      else if str_includes message ''format'' \<or> str_includes message ''No suitable''
      then ''No suitable video format available''
      else if str_includes message ''rate limit'' \<or> str_includes message ''too many''
      then ''Rate limit exceeded. Please try again later''
      else if str_includes message ''timeout'' \<or> str_includes message ''time out''
      then ''Request timeout. Please try again''
      else if message \<noteq> [] then message
      else ''An error occurred while processing your request'')"

text \<open>
  Lines 224--235: the check of the adapter's result and the defaults of the success
  response. \<open>None\<close> is an absent result.
\<close>

definition finish :: "string \<Rightarrow> resolved option \<Rightarrow> string + resolved" where
  "finish type result =
     (case result of
        None \<Rightarrow> Inl ''No download link available''
      | Some r \<Rightarrow>
          if \<not> truthy (download_url r) then Inl ''No download link available''
          else Inr \<lparr>title = (if title r \<noteq> [] then title r else ''Video Download''),
                    format = (if format r \<noteq> [] then format r
                              else if type = ''audio'' then ''MP3'' else ''MP4''),
                    filesize = (if filesize r \<noteq> [] then filesize r else ''Unknown''),
                    download_url = download_url r\<rparr>)"

text \<open>Lines 217--222: the adapter is chosen by the validated domain.\<close>

definition dispatch :: "env \<Rightarrow> string \<Rightarrow> string \<Rightarrow> string \<Rightarrow> (string + resolved) \<times> event list" where
  "dispatch E domain url type =
     (if str_includes domain ''youtube.com'' \<or> str_includes domain ''youtu.be''
      then getYouTubeInfo E url type
      else getGenericInfo E url type)"

text \<open>
  The handler of \<open>POST /api/download\<close>. The whole body of the handler is one \<open>try\<close>:
  whatever is thrown, the destructuring of an absent \<open>req.body\<close> included, is logged,
  translated and answered with status 500.
\<close>

definition download :: "env \<Rightarrow> body option \<Rightarrow> response \<times> event list" where
  "download E req_body =
     (case req_body of
        None \<Rightarrow>
          (Failure 500 (translate destructure_error),
           [Logged (''Download endpoint error: '' @ destructure_error)])
      | Some b \<Rightarrow>
         (let type = (case body_type b of None \<Rightarrow> ''video'' | Some t \<Rightarrow> t);
              url = or_else (body_url b) []
          in if \<not> truthy (body_url b) then (Failure 400 ''Video URL is required'', [])
             else if type \<notin> set [''video'', ''audio''] then (Failure 400 ''Invalid download type'', [])
             else case validateVideoUrl E url of
                    Invalid err \<Rightarrow> (Failure 400 err, [])
                  | Valid domain \<Rightarrow>
                      (case dispatch E domain url type of
                         (Inl msg, tr) \<Rightarrow>
                           (Failure 500 (translate msg),
                            tr @ [Logged (''Download endpoint error: '' @ msg)])
                       | (Inr result, tr) \<Rightarrow>
                           (case finish type (Some result) of
                              Inl msg \<Rightarrow>
                                (Failure 500 (translate msg),
                                 tr @ [Logged (''Download endpoint error: '' @ msg)])
                            | Inr payload \<Rightarrow> (Success payload, tr)))))"

section \<open>The serverless handler \<^verbatim>\<open>api/download.js\<close>\<close>

definition translate_js :: "string \<Rightarrow> string" where
  "translate_js message =
     (if str_includes message ''private'' \<or> str_includes message ''unavailable''
      then ''Video is private or unavailable''
      else if str_includes message ''copyright'' \<or> str_includes message ''restricted''
      then ''Video is restricted by copyright''
      else if str_includes message ''Invalid URL''
      then ''Invalid YouTube URL''
      else if str_includes message ''No suitable format''
      then ''Could not find a suitable format for this video''
      else ''Failed to process the video URL'')"

text \<open>
  The method is checked before the \<open>try\<close>; inside it the first statement destructures
  \<open>req.body\<close>, and the \<open>catch\<close> answers every thrown error with status 500.
\<close>

definition download_js :: "env \<Rightarrow> string \<Rightarrow> body option \<Rightarrow> response \<times> event list" where
  "download_js E method req_body =
     (if method = ''OPTIONS'' then (Ended 200, [])
      else if method \<noteq> ''POST'' then (Failure 405 ''Method not allowed'', [])
      else case req_body of
        None \<Rightarrow>
          (Failure 500 (translate_js destructure_error),
           [Logged (''Error: '' @ destructure_error)])
      | Some b \<Rightarrow>
         (let type = (case body_type b of None \<Rightarrow> ''video'' | Some t \<Rightarrow> t);
              url = or_else (body_url b) []
          in if \<not> truthy (body_url b) then (Failure 400 ''Video URL is required'', [])
             else if type \<notin> set [''video'', ''audio''] then (Failure 400 ''Invalid download type'', [])
             else if \<not> isUri E url then (Failure 400 ''Invalid URL format'', [])
             else if \<not> (str_includes url ''youtube.com'' \<or> str_includes url ''youtu.be'')
             then (Failure 400
                     ''Currently, only YouTube videos are supported. Support for other sites coming soon.'',
                   [])
             else case getInfo E url of
                    Inl msg \<Rightarrow>
                      (Failure 500 (translate_js msg),
                       [Contacted YtdlCore url, Logged (''Error: '' @ msg)])
                  | Inr info \<Rightarrow>
                      (case selectFormat type (formats info) of
                         None \<Rightarrow>
                           (Failure 500 (translate_js ''No suitable format found for the selected type''),
                            [Contacted YtdlCore url,
                             Logged (''Error: '' @ ''No suitable format found for the selected type'')])
                       | Some fmt \<Rightarrow>
                           (Success \<lparr>title = sanitize (videoDetails_title info),
                                     format = (if type = ''audio'' then ''MP3''
                                               else toUpperCase (container fmt)),
                                     filesize = (if truthy (contentLength fmt)
                                                 then renderMB E (or_else (contentLength fmt) [])
                                                 else ''Unknown''),
                                     download_url = format_url fmt\<rparr>,
                            [Contacted YtdlCore url]))))"

section \<open>Notions used to state the properties\<close>

text \<open>The numeric quality of an encoding as the video comparator reads it.\<close>

definition quality :: "videoFormat \<Rightarrow> int" where
  "quality f = or0 (parseInt (qualityLabel f))"

text \<open>The bitrate of an encoding, a missing one counting as 0.\<close>

definition bitrate0 :: "videoFormat \<Rightarrow> int" where
  "bitrate0 f = or0 (toNumber (bitrate f))"

text \<open>A hostname contains an allow-listed token.\<close>

definition allowlisted :: "string \<Rightarrow> bool" where
  "allowlisted h = list_ex (str_includes h) allowedDomains"

text \<open>
  The specification's reading of the domain: the hostname with a leading \<open>www.\<close> removed
  and nothing else touched. It is compared with \<open>getDomain\<close> below.
\<close>

definition spec_strip_leading_www :: "string \<Rightarrow> string" where
  "spec_strip_leading_www h = (if prefix ''www.'' h then drop 4 h else h)"

text \<open>
  A token in which every \<open>w\<close> is followed by another character that is not a \<open>w\<close>:
  no occurrence of \<open>www.\<close> can begin inside it.
\<close>

fun w_guarded :: "string \<Rightarrow> bool" where
  "w_guarded [] = True"
| "w_guarded (c # cs) = ((c = CHR ''w'' \<longrightarrow> cs \<noteq> [] \<and> hd cs \<noteq> CHR ''w'') \<and> w_guarded cs)"

definition www_safe :: "string \<Rightarrow> bool" where
  "www_safe t = (t \<noteq> [] \<and> hd t \<noteq> CHR ''w'' \<and> hd t \<noteq> CHR ''.'' \<and> w_guarded t)"

section \<open>Example inputs\<close>

definition audio_only :: "optnum \<Rightarrow> string \<Rightarrow> videoFormat" where
  "audio_only b u =
     \<lparr>hasAudio = True, hasVideo = False, bitrate = b, qualityLabel = None, fps = None,
      container = ''webm'', contentLength = None, format_url = Some u\<rparr>"

definition muxed :: "string \<Rightarrow> int \<Rightarrow> videoFormat" where
  "muxed label rate =
     \<lparr>hasAudio = True, hasVideo = True, bitrate = Undefined, qualityLabel = Some label,
      fps = Some rate, container = ''mp4'', contentLength = None,
      format_url = Some ''https://cdn.test/v''\<rparr>"

text \<open>The hostname of the plain \<open>https://host/path\<close> URLs used in the examples.\<close>

definition example_hostname :: "string \<Rightarrow> string option" where
  "example_hostname u =
     (if prefix ''https://'' u then Some (takeWhile (\<lambda>c. c \<noteq> CHR ''/'') (drop 8 u)) else None)"

definition stub_env ::
  "(string + videoInfo) \<Rightarrow> (string + genericInfo option) \<Rightarrow> (string + string list option option) \<Rightarrow> env"
where
  "stub_env yt gen ig =
     \<lparr>isUri = (\<lambda>u. True), hostname = example_hostname, getInfo = (\<lambda>u. yt),
      youtubedl = (\<lambda>u t. gen), youtubedl_getUrl = (\<lambda>u t. Inl ''no direct url''),
      getInstagram = (\<lambda>u. ig), renderSize = (\<lambda>n. ''(size)''), renderMB = (\<lambda>s. ''(size)'')\<rparr>"

section \<open>Properties of the sort\<close>

text \<open>
  Only the first element of the sorted array is read. It is an element of the input; no
  element of the input goes strictly before it (when the comparator is an ordering on the
  input); and every element that preceded it in the input goes strictly after it.
\<close>

lemma first_place:
  "first (place c x ys) =
     (case first ys of None \<Rightarrow> Some x
      | Some y \<Rightarrow> if sortCompare c x y > 0 then Some y else Some x)"
  by (cases ys) (simp_all add: first_def)

lemma first_js_sort_None: "first (js_sort c xs) = None \<longleftrightarrow> xs = []"
proof (cases xs)
  case Nil
  then show ?thesis by (simp add: first_def)
next
  case (Cons x xs')
  then show ?thesis by (simp add: first_place split: option.splits)
qed

lemma first_js_sort_mem: "first (js_sort c xs) = Some m \<Longrightarrow> m \<in> set xs"
proof (induction xs arbitrary: m)
  case Nil
  then show ?case by (simp add: first_def)
next
  case (Cons x xs)
  then show ?case
    by (auto simp: first_place split: option.splits if_splits)
qed

lemma first_js_sort_best_on:
  assumes "\<And>a b. a \<in> set xs \<Longrightarrow> b \<in> set xs \<Longrightarrow> sortCompare c a b > 0 \<Longrightarrow> \<not> sortCompare c b a > 0"
      and "\<And>a b d. a \<in> set xs \<Longrightarrow> b \<in> set xs \<Longrightarrow> d \<in> set xs \<Longrightarrow>
             \<not> sortCompare c a b > 0 \<Longrightarrow> \<not> sortCompare c b d > 0 \<Longrightarrow> \<not> sortCompare c a d > 0"
      and "first (js_sort c xs) = Some m"
      and "y \<in> set xs"
    shows "\<not> sortCompare c m y > 0"
  using assms
proof (induction xs arbitrary: m y)
  case Nil
  from Nil.prems(4) show ?case by simp
next
  case (Cons x xs)
  have asym: "\<not> sortCompare c b a > 0"
    if "a \<in> set (x # xs)" "b \<in> set (x # xs)" "sortCompare c a b > 0" for a b
    using Cons.prems(1)[OF that] .
  have trans: "\<not> sortCompare c a d > 0"
    if "a \<in> set (x # xs)" "b \<in> set (x # xs)" "d \<in> set (x # xs)"
       "\<not> sortCompare c a b > 0" "\<not> sortCompare c b d > 0" for a b d
    using Cons.prems(2)[OF that] .
  have refl: "\<not> sortCompare c x x > 0" using asym[of x x] by auto
  show ?case
  proof (cases "first (js_sort c xs)")
    case None
    then have "xs = []" by (simp add: first_js_sort_None)
    with Cons.prems(3,4) have "m = x" "y = x" by (simp_all add: first_def)
    with refl show ?thesis by simp
  next
    case (Some m')
    then have m'_in: "m' \<in> set xs" by (rule first_js_sort_mem)
    have ih: "\<not> sortCompare c m' z > 0" if "z \<in> set xs" for z
    proof (rule Cons.IH[OF _ _ Some that])
      show "\<not> sortCompare c b a > 0"
        if "a \<in> set xs" "b \<in> set xs" "sortCompare c a b > 0" for a b
        using asym[of a b] that by simp
      show "\<not> sortCompare c a d > 0"
        if "a \<in> set xs" "b \<in> set xs" "d \<in> set xs"
           "\<not> sortCompare c a b > 0" "\<not> sortCompare c b d > 0" for a b d
        using trans[of a b d] that by simp
    qed
    show ?thesis
    proof (cases "sortCompare c x m' > 0")
      case True
      with Some Cons.prems(3) have m: "m = m'" by (simp add: first_place)
      show ?thesis
      proof (cases "y = x")
        case yx: True
        from asym[of x m'] True m'_in have "\<not> sortCompare c m' x > 0" by simp
        with yx m show ?thesis by simp
      next
        case False
        with Cons.prems(4) have "y \<in> set xs" by simp
        from ih[OF this] m show ?thesis by simp
      qed
    next
      case False
      with Some Cons.prems(3) have m: "m = x" by (simp add: first_place)
      show ?thesis
      proof (cases "y = x")
        case True
        with m refl show ?thesis by simp
      next
        case ne: False
        with Cons.prems(4) have y_in: "y \<in> set xs" by simp
        from ih[OF this] have "\<not> sortCompare c m' y > 0" .
        from trans[of x m' y] False this m'_in y_in m show ?thesis by simp
      qed
    qed
  qed
qed

lemma first_js_sort_stable:
  "first (js_sort c xs) = Some m \<Longrightarrow>
     \<exists>pre post. xs = pre @ m # post \<and> (\<forall>y\<in>set pre. sortCompare c y m > 0)"
proof (induction xs arbitrary: m)
  case Nil
  then show ?case by (simp add: first_def)
next
  case (Cons x xs)
  show ?case
  proof (cases "first (js_sort c xs)")
    case None
    then have "xs = []" by (simp add: first_js_sort_None)
    with Cons.prems have "m = x" by (simp add: first_def)
    with \<open>xs = []\<close> have "x # xs = [] @ m # [] \<and> (\<forall>y\<in>set []. sortCompare c y m > 0)"
      by simp
    then show ?thesis by blast
  next
    case (Some m')
    show ?thesis
    proof (cases "sortCompare c x m' > 0")
      case True
      with Some Cons.prems have m: "m = m'" by (simp add: first_place)
      from Cons.IH[OF Some] obtain pre post
        where "xs = pre @ m' # post" "\<forall>y\<in>set pre. sortCompare c y m' > 0" by blast
      with True m have "x # xs = (x # pre) @ m # post \<and> (\<forall>y\<in>set (x # pre). sortCompare c y m > 0)"
        by simp
      then show ?thesis by blast
    next
      case False
      with Some Cons.prems have "m = x" by (simp add: first_place)
      then have "x # xs = [] @ m # xs \<and> (\<forall>y\<in>set []. sortCompare c y m > 0)" by simp
      then show ?thesis by blast
    qed
  qed
qed

section \<open>The format selector: audio\<close>

text \<open>
  When the bitrate of every audio-only encoding is a number or \<open>null\<close> the comparator
  is an ordering, and the selector returns the first audio-only encoding of highest
  bitrate.
\<close>

lemma audio_selection_present_bitrates:
  assumes present: "\<forall>f\<in>set fs. hasAudio f \<and> \<not> hasVideo f \<longrightarrow> bitrate f \<noteq> Undefined"
  shows "(selectFormat ''audio'' fs = None \<longleftrightarrow> (\<forall>f\<in>set fs. \<not> (hasAudio f \<and> \<not> hasVideo f)))
   \<and> (\<forall>m. selectFormat ''audio'' fs = Some m \<longrightarrow>
          m \<in> set fs \<and> hasAudio m \<and> \<not> hasVideo m
          \<and> (\<forall>g\<in>set fs. hasAudio g \<and> \<not> hasVideo g \<longrightarrow> bitrate0 g \<le> bitrate0 m)
          \<and> (\<exists>pre post. filter (\<lambda>f. hasAudio f \<and> \<not> hasVideo f) fs = pre @ m # post
                \<and> (\<forall>g\<in>set pre. bitrate0 g < bitrate0 m)))"
proof -
  let ?keep = "filter (\<lambda>f. hasAudio f \<and> \<not> hasVideo f) fs"
  have sel: "selectFormat ''audio'' fs = first (js_sort audio_compare ?keep)"
    by (simp add: selectFormat_def)
  have cmp: "(sortCompare audio_compare a b > 0) = (bitrate0 a < bitrate0 b)"
    if "a \<in> set ?keep" "b \<in> set ?keep" for a b
  proof -
    from that present have "bitrate a \<noteq> Undefined" "bitrate b \<noteq> Undefined" by auto
    then obtain x y where "toNumber (bitrate a) = Some x" "toNumber (bitrate b) = Some y"
      by (cases "bitrate a"; cases "bitrate b") auto
    then show ?thesis by (simp add: sortCompare_def audio_compare_def or0_def bitrate0_def)
  qed
  have none: "selectFormat ''audio'' fs = None \<longleftrightarrow> (\<forall>f\<in>set fs. \<not> (hasAudio f \<and> \<not> hasVideo f))"
    unfolding sel first_js_sort_None by (simp add: filter_empty_conv)
  have some: "m \<in> set fs \<and> hasAudio m \<and> \<not> hasVideo m
          \<and> (\<forall>g\<in>set fs. hasAudio g \<and> \<not> hasVideo g \<longrightarrow> bitrate0 g \<le> bitrate0 m)
          \<and> (\<exists>pre post. ?keep = pre @ m # post
                \<and> (\<forall>g\<in>set pre. bitrate0 g < bitrate0 m))"
    if m: "selectFormat ''audio'' fs = Some m" for m
  proof -
    from m have hd: "first (js_sort audio_compare ?keep) = Some m" by (simp add: sel)
    from first_js_sort_mem[OF hd] have mk: "m \<in> set ?keep" .
    then have mem: "m \<in> set fs" "hasAudio m" "\<not> hasVideo m" by simp_all
    have best: "\<not> sortCompare audio_compare m g > 0" if "g \<in> set ?keep" for g
    proof (rule first_js_sort_best_on[OF _ _ hd that])
      show "\<not> sortCompare audio_compare b a > 0"
        if "a \<in> set ?keep" "b \<in> set ?keep" "sortCompare audio_compare a b > 0" for a b
        using that cmp[of a b] cmp[of b a] by simp
      show "\<not> sortCompare audio_compare a d > 0"
        if "a \<in> set ?keep" "b \<in> set ?keep" "d \<in> set ?keep"
           "\<not> sortCompare audio_compare a b > 0" "\<not> sortCompare audio_compare b d > 0" for a b d
        using that cmp[of a b] cmp[of b d] cmp[of a d] by simp
    qed
    have le: "bitrate0 g \<le> bitrate0 m" if "g \<in> set fs" "hasAudio g \<and> \<not> hasVideo g" for g
    proof -
      from that have gk: "g \<in> set ?keep" by simp
      from best[OF gk] cmp[OF mk gk] show ?thesis by simp
    qed
    from first_js_sort_stable[OF hd] obtain pre post
      where pp: "?keep = pre @ m # post" "\<forall>y\<in>set pre. sortCompare audio_compare y m > 0" by blast
    have lt: "bitrate0 g < bitrate0 m" if "g \<in> set pre" for g
    proof -
      from that pp(1) have gk: "g \<in> set ?keep" by simp
      from pp(2) that have "sortCompare audio_compare g m > 0" by blast
      with cmp[OF gk mk] show ?thesis by simp
    qed
    have le': "\<forall>g\<in>set fs. hasAudio g \<and> \<not> hasVideo g \<longrightarrow> bitrate0 g \<le> bitrate0 m"
      using le by blast
    have "\<forall>g\<in>set pre. bitrate0 g < bitrate0 m"
      using lt by blast
    with pp(1) have ex: "\<exists>pre post. ?keep = pre @ m # post
                \<and> (\<forall>g\<in>set pre. bitrate0 g < bitrate0 m)"
      by blast
    from mem le' ex show ?thesis by (intro conjI)
  qed
  have all: "\<forall>m. selectFormat ''audio'' fs = Some m \<longrightarrow>
          m \<in> set fs \<and> hasAudio m \<and> \<not> hasVideo m
          \<and> (\<forall>g\<in>set fs. hasAudio g \<and> \<not> hasVideo g \<longrightarrow> bitrate0 g \<le> bitrate0 m)
          \<and> (\<exists>pre post. ?keep = pre @ m # post
                \<and> (\<forall>g\<in>set pre. bitrate0 g < bitrate0 m))"
  proof (intro allI impI)
    fix m assume "selectFormat ''audio'' fs = Some m"
    then show "m \<in> set fs \<and> hasAudio m \<and> \<not> hasVideo m
          \<and> (\<forall>g\<in>set fs. hasAudio g \<and> \<not> hasVideo g \<longrightarrow> bitrate0 g \<le> bitrate0 m)
          \<and> (\<exists>pre post. ?keep = pre @ m # post
                \<and> (\<forall>g\<in>set pre. bitrate0 g < bitrate0 m))"
      by (rule some)
  qed
  from none all show ?thesis ..
qed

lemma audio_selection_example:
  "selectFormat ''audio''
     [audio_only (Num 128) ''https://cdn.test/a'', audio_only (Num 256) ''https://cdn.test/b'']
   = Some (audio_only (Num 256) ''https://cdn.test/b'')"
  by code_simp

text \<open>A bitrate that is \<open>null\<close> does count as 0: the subtraction converts it.\<close>

lemma null_bitrate_counts_as_zero:
  "selectFormat ''audio''
     [audio_only Null ''https://cdn.test/a'', audio_only (Num 128) ''https://cdn.test/b'']
   = Some (audio_only (Num 128) ''https://cdn.test/b'')"
  by code_simp

text \<open>
  Claim C1: for \<open>type = audio\<close> the selector keeps the encodings with audio and without
  video and returns the survivor of highest bitrate, a missing bitrate counting as 0, ties
  going to the first in input order. The comparator \<open>b.bitrate - a.bitrate\<close> has no
  \<open>|| 0\<close>: with an absent bitrate it yields \<open>NaN\<close>, which the sort reads as "equal".
  Given an audio-only encoding without bitrate followed by one of bitrate 128, all
  comparisons are "equal", the stable sort leaves the order alone, and the encoding
  without bitrate is returned although the other one has the higher bitrate.
\<close>

theorem audio_missing_bitrate_wins:
  "selectFormat ''audio''
     [audio_only Undefined ''https://cdn.test/a'', audio_only (Num 128) ''https://cdn.test/b'']
   = Some (audio_only Undefined ''https://cdn.test/a'')
   \<and> bitrate0 (audio_only Undefined ''https://cdn.test/a'')
       < bitrate0 (audio_only (Num 128) ''https://cdn.test/b'')"
  by code_simp

section \<open>The format selector: video\<close>

lemma sortCompare_video:
  "(sortCompare video_compare a b > 0) =
     (quality a < quality b \<or> (quality a = quality b \<and> or0 (fps a) < or0 (fps b)))"
  by (auto simp: sortCompare_def video_compare_def quality_def Let_def)

text \<open>
  Claim C2: for \<open>type = video\<close> the selector keeps exactly the encodings with both audio
  and video and returns a survivor that is maximal for the order "higher parsed quality
  label first (unparseable counts as 0), then higher fps (missing counts as 0)"; it returns
  nothing exactly when no encoding survives.
\<close>

theorem video_selection_maximal:
  "(selectFormat ''video'' fs = None \<longleftrightarrow> (\<forall>f\<in>set fs. \<not> (hasVideo f \<and> hasAudio f)))
   \<and> (\<forall>m. selectFormat ''video'' fs = Some m \<longrightarrow>
          m \<in> set fs \<and> hasVideo m \<and> hasAudio m \<and>
          (\<forall>g\<in>set fs. hasVideo g \<and> hasAudio g \<longrightarrow>
             quality g < quality m \<or> (quality g = quality m \<and> or0 (fps g) \<le> or0 (fps m))))"
proof -
  let ?keep = "filter (\<lambda>f. hasVideo f \<and> hasAudio f) fs"
  have sel: "selectFormat ''video'' fs = first (js_sort video_compare ?keep)"
    by (simp add: selectFormat_def)
  have none: "selectFormat ''video'' fs = None \<longleftrightarrow> (\<forall>f\<in>set fs. \<not> (hasVideo f \<and> hasAudio f))"
    unfolding sel first_js_sort_None by (simp add: filter_empty_conv)
  have some: "m \<in> set fs \<and> hasVideo m \<and> hasAudio m \<and>
          (\<forall>g\<in>set fs. hasVideo g \<and> hasAudio g \<longrightarrow>
             quality g < quality m \<or> (quality g = quality m \<and> or0 (fps g) \<le> or0 (fps m)))"
    if m: "selectFormat ''video'' fs = Some m" for m
  proof -
    from m have hd: "first (js_sort video_compare ?keep) = Some m" by (simp add: sel)
    from first_js_sort_mem[OF hd] have mem: "m \<in> set fs" "hasVideo m" "hasAudio m" by simp_all
    have best: "\<not> sortCompare video_compare m g > 0" if "g \<in> set ?keep" for g
      by (rule first_js_sort_best_on[OF _ _ hd that]) (auto simp: sortCompare_video)
    have "quality g < quality m \<or> (quality g = quality m \<and> or0 (fps g) \<le> or0 (fps m))"
      if "g \<in> set fs" "hasVideo g \<and> hasAudio g" for g
      using best[of g] that by (auto simp: sortCompare_video)
    with mem show ?thesis by blast
  qed
  from none some show ?thesis by blast
qed

text \<open>
  The instance of the specification: among 720p/30, 1080p/24 and 1080p/30 (each with audio
  and video) the selector returns 1080p/30.
\<close>

theorem video_selection_maximal_witness:
  "selectFormat ''video'' [muxed ''720p'' 30, muxed ''1080p'' 24, muxed ''1080p'' 30]
     = Some (muxed ''1080p'' 30)
   \<and> hasVideo (muxed ''1080p'' 30) \<and> hasAudio (muxed ''1080p'' 30)
   \<and> (quality (muxed ''720p'' 30) < quality (muxed ''1080p'' 30)
      \<or> (quality (muxed ''720p'' 30) = quality (muxed ''1080p'' 30)
          \<and> or0 (fps (muxed ''720p'' 30)) \<le> or0 (fps (muxed ''1080p'' 30))))
   \<and> (quality (muxed ''1080p'' 24) < quality (muxed ''1080p'' 30)
      \<or> (quality (muxed ''1080p'' 24) = quality (muxed ''1080p'' 30)
          \<and> or0 (fps (muxed ''1080p'' 24)) \<le> or0 (fps (muxed ''1080p'' 30))))"
proof -
  let ?ex = "[muxed ''720p'' 30, muxed ''1080p'' 24, muxed ''1080p'' 30]"
  let ?m = "muxed ''1080p'' 30"
  have ev: "selectFormat ''video'' ?ex = Some ?m" by code_simp
  note best = video_selection_maximal[of ?ex, THEN conjunct2, THEN spec, THEN mp, OF ev]
  note flags = best[THEN conjunct2, THEN conjunct1] best[THEN conjunct2, THEN conjunct2, THEN conjunct1]
  from best have all: "\<forall>g\<in>set ?ex. hasVideo g \<and> hasAudio g \<longrightarrow>
      quality g < quality ?m \<or> (quality g = quality ?m \<and> or0 (fps g) \<le> or0 (fps ?m))"
    by (elim conjE)
  have av: "hasVideo (muxed q r) \<and> hasAudio (muxed q r)" for q r by (simp add: muxed_def)
  have 1: "muxed ''720p'' 30 \<in> set ?ex" and 2: "muxed ''1080p'' 24 \<in> set ?ex"
    by (simp_all only: list.set insertI1 insertI2)
  note a = all[THEN bspec, OF 1, THEN mp, OF av]
  note b = all[THEN bspec, OF 2, THEN mp, OF av]
  from ev flags a b show ?thesis by (intro conjI)
qed

section \<open>Strings: containment and the removal of \<open>www.\<close>\<close>

lemma str_includes_iff: "str_includes s t \<longleftrightarrow> (\<exists>p q. s = p @ t @ q)"
proof (induction s)
  case Nil
  then show ?case by auto
next
  case (Cons c cs)
  show ?case
  proof
    assume "str_includes (c # cs) t"
    then consider "prefix t (c # cs)" | "str_includes cs t" by auto
    then show "\<exists>p q. c # cs = p @ t @ q"
    proof cases
      case 1
      then obtain q where "c # cs = t @ q" by (auto simp: prefix_def)
      then have "c # cs = [] @ t @ q" by simp
      then show ?thesis by blast
    next
      case 2
      with Cons.IH obtain p q where "cs = p @ t @ q" by blast
      then have "c # cs = (c # p) @ t @ q" by simp
      then show ?thesis by blast
    qed
  next
    assume "\<exists>p q. c # cs = p @ t @ q"
    then obtain p q where pq: "c # cs = p @ t @ q" by blast
    show "str_includes (c # cs) t"
    proof (cases p)
      case Nil
      with pq have "prefix t (c # cs)" by (simp add: prefix_def)
      then show ?thesis by simp
    next
      case (Cons a p')
      with pq have "cs = p' @ t @ q" by simp
      with Cons.IH have "str_includes cs t" by blast
      then show ?thesis by simp
    qed
  qed
qed

lemma replace_first_prefix:
  "prefix pat h \<Longrightarrow> pat \<noteq> [] \<Longrightarrow> replace_first pat rep h = rep @ drop (length pat) h"
  by (cases h) simp_all

lemma replace_first_absent:
  "\<not> str_includes h pat \<Longrightarrow> pat \<noteq> [] \<Longrightarrow> replace_first pat rep h = h"
  by (induction h) auto

lemma replace_first_occurrence:
  "str_includes h pat \<Longrightarrow> pat \<noteq> [] \<Longrightarrow>
     \<exists>p s. h = p @ pat @ s \<and> replace_first pat rep h = p @ rep @ s
           \<and> (\<forall>p' s'. h = p' @ pat @ s' \<longrightarrow> length p \<le> length p')"
proof (induction h)
  case Nil
  then show ?case by simp
next
  case (Cons c cs)
  show ?case
  proof (cases "prefix pat (c # cs)")
    case True
    then obtain s where s: "c # cs = pat @ s" by (auto simp: prefix_def)
    then have d: "drop (length pat) (c # cs) = s" by (metis append_eq_conv_conj)
    from True have "replace_first pat rep (c # cs) = rep @ drop (length pat) (c # cs)"
      by (simp only: replace_first.simps if_True)
    with d have "replace_first pat rep (c # cs) = [] @ rep @ s" by simp
    moreover from s have "c # cs = [] @ pat @ s" by simp
    moreover have "\<forall>p' s'. c # cs = p' @ pat @ s' \<longrightarrow> length ([]::string) \<le> length p'" by simp
    ultimately show ?thesis by blast
  next
    case False
    with Cons.prems have "str_includes cs pat" by simp
    from Cons.IH[OF this Cons.prems(2)] obtain p s where
      ps: "cs = p @ pat @ s" "replace_first pat rep cs = p @ rep @ s"
          "\<forall>p' s'. cs = p' @ pat @ s' \<longrightarrow> length p \<le> length p'" by blast
    have min: "length (c # p) \<le> length p'" if eq: "c # cs = p' @ pat @ s'" for p' s'
    proof (cases p')
      case Nil
      with eq have "prefix pat (c # cs)" by (simp add: prefix_def)
      with False show ?thesis by simp
    next
      case (Cons a p'')
      with eq have "cs = p'' @ pat @ s'" by simp
      with ps(3) have "length p \<le> length p''" by blast
      with Cons show ?thesis by simp
    qed
    from False ps(1,2) have "c # cs = (c # p) @ pat @ s"
      "replace_first pat rep (c # cs) = (c # p) @ rep @ s" by simp_all
    with min show ?thesis by blast
  qed
qed

text \<open>
  An allow-listed token begins with neither \<open>w\<close> nor a dot and has no \<open>w\<close> at its
  end or before another \<open>w\<close>, so an occurrence of a token cannot overlap the first
  \<open>www.\<close> of a hostname and survives its removal.
\<close>

lemma prefix_survives:
  "w_guarded t \<Longrightarrow> prefix t h \<Longrightarrow> prefix t (replace_first ''www.'' [] h)"
proof (induction t arbitrary: h)
  case Nil
  then show ?case by simp
next
  case (Cons a t')
  from Cons.prems(2) obtain h' where h: "h = a # h'" and p': "prefix t' h'"
    by (cases h) auto
  from Cons.prems(1) have g': "w_guarded t'" by simp
  show ?case
  proof (cases "prefix ''www.'' h")
    case True
    with h obtain r where "a = CHR ''w''" "h' = CHR ''w'' # r" by (cases h') auto
    with Cons.prems(1) p' show ?thesis by (cases t') auto
  next
    case False
    with h have "replace_first ''www.'' [] h = a # replace_first ''www.'' [] h'"
      by (simp only: replace_first.simps if_False)
    with Cons.IH[OF g' p'] show ?thesis by simp
  qed
qed

lemma includes_survives:
  "www_safe t \<Longrightarrow> str_includes h t \<Longrightarrow> str_includes (replace_first ''www.'' [] h) t"
proof (induction h)
  case Nil
  then show ?case by (simp add: www_safe_def)
next
  case (Cons c cs)
  from Cons.prems(1) obtain a t' where t: "t = a # t'" "a \<noteq> CHR ''w''" "a \<noteq> CHR ''.''"
    and g: "w_guarded t"
    by (cases t) (auto simp: www_safe_def)
  show ?case
  proof (cases "prefix ''www.'' (c # cs)")
    case True
    then obtain r where r: "c # cs = ''www.'' @ r" by (auto simp: prefix_def)
    with Cons.prems(2) t have "str_includes r t" by auto
    moreover from r have "replace_first ''www.'' [] (c # cs) = r" by simp
    ultimately show ?thesis by simp
  next
    case False
    then have rf: "replace_first ''www.'' [] (c # cs) = c # replace_first ''www.'' [] cs"
      by (simp only: replace_first.simps if_False)
    from Cons.prems(2) consider "prefix t (c # cs)" | "str_includes cs t" by auto
    then show ?thesis
    proof cases
      case 1
      from prefix_survives[OF g 1] have "prefix t (replace_first ''www.'' [] (c # cs))" .
      with rf show ?thesis by simp
    next
      case 2
      from Cons.IH[OF Cons.prems(1) 2] rf show ?thesis by simp
    qed
  qed
qed

lemma allowedDomains_safe: "list_all www_safe allowedDomains"
  by code_simp

lemma allowlisted_survives: "allowlisted h \<Longrightarrow> allowlisted (replace_first ''www.'' [] h)"
proof -
  assume "allowlisted h"
  then obtain t where t: "t \<in> set allowedDomains" "str_includes h t"
    by (auto simp: allowlisted_def list_ex_iff)
  from allowedDomains_safe t(1) have "www_safe t" by (simp add: list_all_iff)
  from includes_survives[OF this t(2)] t(1) show ?thesis
    by (auto simp: allowlisted_def list_ex_iff)
qed

lemma allowlisted_nonempty: "allowlisted d \<Longrightarrow> d \<noteq> []"
proof
  assume a: "allowlisted d" and "d = []"
  then have "list_ex (str_includes []) allowedDomains" by (simp add: allowlisted_def)
  moreover have "\<not> list_ex (str_includes []) allowedDomains" by code_simp
  ultimately show False by simp
qed

section \<open>The URL validator\<close>

lemma validate_cases:
  "validateVideoUrl E url =
     (if \<not> isUri E url then Invalid ''Invalid URL format''
      else case hostname E url of
             None \<Rightarrow> Invalid ''Invalid URL''
           | Some h \<Rightarrow>
               if replace_first ''www.'' [] h = [] then Invalid ''Invalid URL''
               else if \<not> allowlisted (replace_first ''www.'' [] h)
               then Invalid ''Website not supported. Please check the URL.''
               else Valid (replace_first ''www.'' [] h))"
  by (simp add: validateVideoUrl_def getDomain_def allowlisted_def split: option.splits)

text \<open>
  The hostname \<open>youtu.www.be\<close> contains none of the allow-listed tokens, but the domain
  the validator tests is the hostname without its first \<open>www.\<close>, here \<open>youtu.be\<close>:
  the request is accepted, sent to the YouTube adapter and answered with status 200.
\<close>

theorem lookalike_hostname_accepted:
  "hostname (stub_env (Inr \<lparr>videoDetails_title = ''Clip'', formats = [muxed ''720p'' 30]\<rparr>)
                (Inl ''unused'') (Inl ''unused'')) ''https://youtu.www.be/abc''
     = Some ''youtu.www.be''
   \<and> \<not> allowlisted ''youtu.www.be''
   \<and> validateVideoUrl (stub_env (Inr \<lparr>videoDetails_title = ''Clip'', formats = [muxed ''720p'' 30]\<rparr>)
                (Inl ''unused'') (Inl ''unused'')) ''https://youtu.www.be/abc''
     = Valid ''youtu.be''
   \<and> fst (download (stub_env (Inr \<lparr>videoDetails_title = ''Clip'', formats = [muxed ''720p'' 30]\<rparr>)
                  (Inl ''unused'') (Inl ''unused''))
        (Some \<lparr>body_url = Some ''https://youtu.www.be/abc'', body_type = Some ''video''\<rparr>))
     = Success \<lparr>title = ''Clip'', format = ''MP4'', filesize = ''0 Bytes'',
                download_url = Some ''https://cdn.test/v''\<rparr>"
  by code_simp

text \<open>
  A hostname that is nothing but \<open>www.\<close> leaves an empty domain, which is rejected as
  \<open>Invalid URL\<close> before the allow-list is consulted.
\<close>

lemma bare_www_hostname:
  "validateVideoUrl (stub_env (Inl ''unused'') (Inl ''unused'') (Inl ''unused'')) ''https://www./x''
     = Invalid ''Invalid URL''"
  by code_simp

text \<open>
  Claim C4, amended: for every POST request with a url, a valid type and a well-formed URL
  whose hostname, once its first \<open>www.\<close> is removed, is not empty and contains none of
  the allow-listed tokens, the response is HTTP 400 with the message
  \<open>Website not supported. Please check the URL.\<close> and no provider is contacted;
  conversely a hostname that contains an allow-listed token passes validation.
\<close>

theorem unsupported_domain_rejected:
  assumes "truthy (body_url b)"
      and "body_type b \<in> {None, Some ''video'', Some ''audio''}"
      and "isUri E (or_else (body_url b) [])"
      and "hostname E (or_else (body_url b) []) = Some h"
  shows "(replace_first ''www.'' [] h \<noteq> [] \<and> \<not> allowlisted (replace_first ''www.'' [] h) \<longrightarrow>
            download E (Some b) = (Failure 400 ''Website not supported. Please check the URL.'', []))
         \<and> (allowlisted h \<longrightarrow>
              validateVideoUrl E (or_else (body_url b) []) = Valid (replace_first ''www.'' [] h))"
proof -
  have v: "validateVideoUrl E (or_else (body_url b) []) =
      (if replace_first ''www.'' [] h = [] then Invalid ''Invalid URL''
               else if \<not> allowlisted (replace_first ''www.'' [] h)
               then Invalid ''Website not supported. Please check the URL.''
               else Valid (replace_first ''www.'' [] h))"
    using assms(3,4) by (simp add: validate_cases)
  have ty: "(case body_type b of None \<Rightarrow> ''video'' | Some t \<Rightarrow> t) \<in> set [''video'', ''audio'']"
    using assms(2) by auto
  have a: "download E (Some b) = (Failure 400 ''Website not supported. Please check the URL.'', [])"
    if "replace_first ''www.'' [] h \<noteq> []" "\<not> allowlisted (replace_first ''www.'' [] h)"
    using that assms(1) ty v by (simp add: download_def Let_def)
  have b: "validateVideoUrl E (or_else (body_url b) []) = Valid (replace_first ''www.'' [] h)"
    if "allowlisted h"
  proof -
    from that have "allowlisted (replace_first ''www.'' [] h)" by (rule allowlisted_survives)
    moreover from this have "replace_first ''www.'' [] h \<noteq> []" by (rule allowlisted_nonempty)
    ultimately show ?thesis using v by simp
  qed
  from a b show ?thesis by blast
qed

theorem unsupported_domain_rejected_witness:
  "download (stub_env (Inl ''unused'') (Inl ''unused'') (Inl ''unused''))
      (Some \<lparr>body_url = Some ''https://example-unsupported.test/v/1'', body_type = None\<rparr>)
     = (Failure 400 ''Website not supported. Please check the URL.'', [])
   \<and> validateVideoUrl (stub_env (Inl ''unused'') (Inl ''unused'') (Inl ''unused''))
        ''https://www.youtube.com/watch?v=X'' = Valid ''youtube.com''"
proof -
  let ?E = "stub_env (Inl ''unused'') (Inl ''unused'') (Inl ''unused'')"
  let ?b = "\<lparr>body_url = Some ''https://example-unsupported.test/v/1'', body_type = None\<rparr>"
  let ?c = "\<lparr>body_url = Some ''https://www.youtube.com/watch?v=X'', body_type = None\<rparr>"
  have 1: "truthy (body_url ?b)" "truthy (body_url ?c)" by code_simp+
  have 2: "body_type ?b \<in> {None, Some ''video'', Some ''audio''}"
          "body_type ?c \<in> {None, Some ''video'', Some ''audio''}" by simp_all
  have 3: "isUri ?E (or_else (body_url ?b) [])" "isUri ?E (or_else (body_url ?c) [])"
    by (simp_all add: stub_env_def)
  have 4: "hostname ?E (or_else (body_url ?b) []) = Some ''example-unsupported.test''"
          "hostname ?E (or_else (body_url ?c) []) = Some ''www.youtube.com''"
    by code_simp+
  have 5: "replace_first ''www.'' [] ''example-unsupported.test'' \<noteq> []
           \<and> \<not> allowlisted (replace_first ''www.'' [] ''example-unsupported.test'')"
    by code_simp
  have 6: "allowlisted ''www.youtube.com''" by code_simp
  have 7: "or_else (body_url ?c) [] = ''https://www.youtube.com/watch?v=X''"
          "replace_first ''www.'' [] ''www.youtube.com'' = ''youtube.com''" by code_simp+
  from unsupported_domain_rejected[OF 1(1) 2(1) 3(1) 4(1)] 5
  have "download ?E (Some ?b) = (Failure 400 ''Website not supported. Please check the URL.'', [])"
    by blast
  moreover from unsupported_domain_rejected[OF 1(2) 2(2) 3(2) 4(2)] 6
  have "validateVideoUrl ?E (or_else (body_url ?c) []) = Valid (replace_first ''www.'' [] ''www.youtube.com'')"
    by blast
  ultimately show ?thesis by (simp only: 7)
qed

text \<open>
  For the hostname \<open>m.www.youtube.com\<close> the validator returns the domain
  \<open>m.youtube.com\<close>: the \<open>www.\<close> inside the hostname is removed, where the reading
  "only a leading prefix is removed" leaves the hostname as it is.
\<close>

theorem www_inside_hostname_removed:
  "hostname (stub_env (Inl ''unused'') (Inl ''unused'') (Inl ''unused''))
       ''https://m.www.youtube.com/watch?v=X'' = Some ''m.www.youtube.com''
   \<and> validateVideoUrl (stub_env (Inl ''unused'') (Inl ''unused'') (Inl ''unused''))
       ''https://m.www.youtube.com/watch?v=X'' = Valid ''m.youtube.com''
   \<and> spec_strip_leading_www ''m.www.youtube.com'' = ''m.www.youtube.com''"
  by code_simp

text \<open>
  Claim C6, amended: for every URL accepted by the validator, the domain it returns is the
  URL's hostname with its first occurrence of \<open>www.\<close> removed, wherever that occurrence
  is; this is the hostname without its leading \<open>www.\<close> when the hostname starts with
  \<open>www.\<close>, and the hostname itself when it contains no \<open>www.\<close>. A URL that passes
  the URI check and whose hostname cannot be parsed fails validation with
  \<open>Invalid URL\<close>.
\<close>

theorem domain_is_hostname_without_first_www:
  "(validateVideoUrl E url = Valid d \<longrightarrow>
      (\<exists>h. hostname E url = Some h \<and> d = replace_first ''www.'' [] h
           \<and> (prefix ''www.'' h \<or> \<not> str_includes h ''www.'' \<longrightarrow> d = spec_strip_leading_www h)
           \<and> (str_includes h ''www.'' \<longrightarrow>
                (\<exists>p s. h = p @ ''www.'' @ s \<and> d = p @ s
                       \<and> (\<forall>p' s'. h = p' @ ''www.'' @ s' \<longrightarrow> length p \<le> length p')))))
   \<and> (isUri E url \<and> hostname E url = None \<longrightarrow> validateVideoUrl E url = Invalid ''Invalid URL'')"
proof -
  have spec: "replace_first ''www.'' [] h = spec_strip_leading_www h"
    if "prefix ''www.'' h \<or> \<not> str_includes h ''www.''" for h
  proof (cases "prefix ''www.'' h")
    case True
    then show ?thesis by (simp add: replace_first_prefix spec_strip_leading_www_def eval_nat_numeral)
  next
    case False
    with that have "\<not> str_includes h ''www.''" by simp
    with False show ?thesis by (simp add: replace_first_absent spec_strip_leading_www_def)
  qed
  have occ: "\<exists>p s. h = p @ ''www.'' @ s \<and> replace_first ''www.'' [] h = p @ s
                       \<and> (\<forall>p' s'. h = p' @ ''www.'' @ s' \<longrightarrow> length p \<le> length p')"
    if "str_includes h ''www.''" for h
    using replace_first_occurrence[OF that, of "[]"] by simp
  have 1: "\<exists>h. hostname E url = Some h \<and> d = replace_first ''www.'' [] h
           \<and> (prefix ''www.'' h \<or> \<not> str_includes h ''www.'' \<longrightarrow> d = spec_strip_leading_www h)
           \<and> (str_includes h ''www.'' \<longrightarrow>
                (\<exists>p s. h = p @ ''www.'' @ s \<and> d = p @ s
                       \<and> (\<forall>p' s'. h = p' @ ''www.'' @ s' \<longrightarrow> length p \<le> length p')))"
    if "validateVideoUrl E url = Valid d"
  proof -
    from that obtain h where h: "hostname E url = Some h" "d = replace_first ''www.'' [] h"
      by (auto simp: validate_cases split: if_splits option.splits)
    with spec[of h] occ[of h] show ?thesis by blast
  qed
  have 2: "validateVideoUrl E url = Invalid ''Invalid URL''" if "isUri E url \<and> hostname E url = None"
    using that by (simp add: validate_cases)
  from 1 2 show ?thesis by blast
qed

theorem domain_is_hostname_without_first_www_witness:
  "validateVideoUrl (stub_env (Inl ''unused'') (Inl ''unused'') (Inl ''unused''))
        ''https://www.youtube.com/watch?v=X'' = Valid ''youtube.com''
   \<and> hostname (stub_env (Inl ''unused'') (Inl ''unused'') (Inl ''unused''))
        ''https://www.youtube.com/watch?v=X'' = Some ''www.youtube.com''
   \<and> ''youtube.com'' = spec_strip_leading_www ''www.youtube.com''"
proof -
  let ?E = "stub_env (Inl ''unused'') (Inl ''unused'') (Inl ''unused'')"
  let ?u = "''https://www.youtube.com/watch?v=X''"
  have v: "validateVideoUrl ?E ?u = Valid ''youtube.com''" by code_simp
  have h: "hostname ?E ?u = Some ''www.youtube.com''" by code_simp
  have p: "prefix ''www.'' ''www.youtube.com''" by simp
  note ex = domain_is_hostname_without_first_www[of ?E ?u "''youtube.com''",
                THEN conjunct1, THEN mp, OF v]
  then obtain h' where a: "hostname ?E ?u = Some h'"
    and b: "prefix ''www.'' h' \<or> \<not> str_includes h' ''www.'' \<longrightarrow> ''youtube.com'' = spec_strip_leading_www h'"
    by (elim exE conjE)
  from trans[OF a[symmetric] h] have "h' = ''www.youtube.com''" by (simp only: option.inject)
  with b p have s: "''youtube.com'' = spec_strip_leading_www ''www.youtube.com''" by (simp only: simp_thms)
  from v h s show ?thesis by (intro conjI)
qed

section \<open>The YouTube adapter\<close>

text \<open>
  The end-to-end example of the specification: an audio request for a video with two
  audio-only encodings of bitrates 128 and 160 is answered with format \<open>MP3\<close> and the
  URL of the second encoding.
\<close>

lemma end_to_end_audio_example:
  "fst (download (stub_env (Inr \<lparr>videoDetails_title = ''Clip'',
                               formats = [audio_only (Num 128) ''https://cdn.test/a'',
                                          audio_only (Num 160) ''https://cdn.test/b'']\<rparr>)
                  (Inl ''unused'') (Inl ''unused''))
        (Some \<lparr>body_url = Some ''https://www.youtube.com/watch?v=X'', body_type = Some ''audio''\<rparr>))
     = Success \<lparr>title = ''Clip'', format = ''MP3'', filesize = ''0 Bytes'',
                download_url = Some ''https://cdn.test/b''\<rparr>"
  by code_simp

lemma youtube_without_format:
  "getInfo E url = Inr info \<Longrightarrow> selectFormat type (formats info) = None \<Longrightarrow>
     fst (getYouTubeInfo E url type) = Inl youtube_failure"
  by (simp add: getYouTubeInfo_def)

lemma translate_youtube_failure: "translate youtube_failure = youtube_failure"
  by code_simp

lemma translate_no_suitable:
  "translate ''No suitable format found'' = ''No suitable video format available''"
  by code_simp

text \<open>
  The serverless handler has no adapter in between: the thrown message reaches its
  translator and the client.
\<close>

lemma no_suitable_format_js:
  "download_js (stub_env (Inr \<lparr>videoDetails_title = ''Clip'', formats = [muxed ''720p'' 30]\<rparr>)
                  (Inl ''unused'') (Inl ''unused'')) ''POST''
        (Some \<lparr>body_url = Some ''https://www.youtube.com/watch?v=X'', body_type = Some ''audio''\<rparr>)
     = (Failure 500 ''Could not find a suitable format for this video'',
        [Contacted YtdlCore ''https://www.youtube.com/watch?v=X'',
         Logged ''Error: No suitable format found for the selected type''])"
  by code_simp

text \<open>
  Claim C3: when no encoding has the audio/video combination of the requested type, the
  selector returns nothing and the endpoint answers HTTP 500 with a message of the
  category "no suitable format". In the Express application the error
  \<open>No suitable format found\<close> is thrown inside the \<open>try\<close> of \<open>getYouTubeInfo\<close>, whose
  \<open>catch\<close> replaces every error by \<open>youtube_failure\<close>; that message matches none of
  the translator's patterns, so the client receives status 500 with the text about a
  video that is not public. Here: an audio request for a video that only has a combined
  audio+video encoding.
\<close>

theorem no_suitable_format_masked:
  "selectFormat ''audio'' [muxed ''720p'' 30] = None
   \<and> download (stub_env (Inr \<lparr>videoDetails_title = ''Clip'', formats = [muxed ''720p'' 30]\<rparr>)
                  (Inl ''unused'') (Inl ''unused''))
        (Some \<lparr>body_url = Some ''https://www.youtube.com/watch?v=X'', body_type = Some ''audio''\<rparr>)
     = (Failure 500 ''Failed to fetch YouTube video. Make sure the video is public.'',
        [Contacted YtdlCore ''https://www.youtube.com/watch?v=X'',
         Logged ''YouTube error: No suitable format found'',
         Logged ''Download endpoint error: Failed to fetch YouTube video. Make sure the video is public.''])"
  by code_simp

lemma youtube_without_content_length:
  "getInfo E url = Inr info \<Longrightarrow> selectFormat type (formats info) = Some fmt \<Longrightarrow>
     \<not> truthy (contentLength fmt) \<Longrightarrow>
     \<exists>r. fst (getYouTubeInfo E url type) = Inr r \<and> filesize r = ''0 Bytes''"
proof -
  assume a: "getInfo E url = Inr info" "selectFormat type (formats info) = Some fmt"
    and "\<not> truthy (contentLength fmt)"
  then have "or_else (contentLength fmt) ''Unknown'' = ''Unknown''"
    by (auto simp: truthy_def or_else_def split: option.splits)
  moreover have "or0 (parseInt_string ''Unknown'') = 0" by code_simp
  ultimately show ?thesis using a by (simp add: getYouTubeInfo_def Let_def formatFileSize_def)
qed

lemma youtube_with_content_length:
  assumes "getInfo E url = Inr info" "selectFormat type (formats info) = Some fmt"
    and "contentLength fmt = Some s" "parseInt_string s = Some n" "n \<noteq> 0"
  shows "\<exists>r. fst (getYouTubeInfo E url type) = Inr r \<and> filesize r = renderSize E n"
proof -
  from assms(4,5) have "s \<noteq> []" by (auto simp: parseInt_string_def)
  with assms(3) have "or_else (contentLength fmt) ''Unknown'' = s" by (simp add: or_else_def)
  with assms show ?thesis
    by (simp add: getYouTubeInfo_def Let_def formatFileSize_def or0_def)
qed

lemma missing_content_length_js:
  "fst (download_js (stub_env (Inr \<lparr>videoDetails_title = ''Clip'',
                                  formats = [audio_only (Num 128) ''https://cdn.test/a'']\<rparr>)
                  (Inl ''unused'') (Inl ''unused'')) ''POST''
        (Some \<lparr>body_url = Some ''https://www.youtube.com/watch?v=X'', body_type = Some ''audio''\<rparr>))
     = Success \<lparr>title = ''Clip'', format = ''MP3'', filesize = ''Unknown'',
                download_url = Some ''https://cdn.test/a''\<rparr>"
  by code_simp

text \<open>
  Claim C5: when the selected encoding has no content length, the \<open>filesize\<close> of the
  YouTube resolution is \<open>Unknown\<close>. In the Express application the default
  \<open>'Unknown'\<close> is passed through \<open>parseInt(...) || 0\<close> and \<open>formatFileSize\<close>, so the
  response says \<open>0 Bytes\<close>.
\<close>

theorem missing_content_length_zero_bytes:
  "contentLength (audio_only (Num 128) ''https://cdn.test/a'') = None
   \<and> fst (download (stub_env (Inr \<lparr>videoDetails_title = ''Clip'',
                                  formats = [audio_only (Num 128) ''https://cdn.test/a'']\<rparr>)
                  (Inl ''unused'') (Inl ''unused''))
        (Some \<lparr>body_url = Some ''https://www.youtube.com/watch?v=X'', body_type = Some ''audio''\<rparr>))
     = Success \<lparr>title = ''Clip'', format = ''MP3'', filesize = ''0 Bytes'',
                download_url = Some ''https://cdn.test/a''\<rparr>"
  by code_simp

section \<open>The dispatcher\<close>

lemma translate_no_link: "translate ''No download link available'' = ''No download link available''"
  by code_simp

text \<open>
  Claim C7: when the adapter chosen for a request returns a result without a non-empty
  \<open>download_url\<close>, the endpoint answers HTTP 500 with \<open>No download link available\<close>
  instead of a success response; an absent result is treated the same way.
\<close>

theorem missing_download_url_fails:
  assumes "truthy (body_url b)"
      and "body_type b \<in> {None, Some ''video'', Some ''audio''}"
      and "validateVideoUrl E (or_else (body_url b) []) = Valid domain"
      and "dispatch E domain (or_else (body_url b) [])
             (case body_type b of None \<Rightarrow> ''video'' | Some t \<Rightarrow> t) = (Inr r, tr)"
      and "\<not> truthy (download_url r)"
  shows "download E (Some b) =
           (Failure 500 ''No download link available'',
            tr @ [Logged ''Download endpoint error: No download link available''])
         \<and> finish type None = Inl ''No download link available''"
proof -
  have ty: "(case body_type b of None \<Rightarrow> ''video'' | Some t \<Rightarrow> t) \<in> set [''video'', ''audio'']"
    using assms(2) by auto
  have fin: "finish (case body_type b of None \<Rightarrow> ''video'' | Some t \<Rightarrow> t) (Some r)
               = Inl ''No download link available''"
    using assms(5) by (simp add: finish_def)
  have "download E (Some b) =
           (Failure 500 (translate ''No download link available''),
            tr @ [Logged (''Download endpoint error: '' @ ''No download link available'')])"
    using assms(1,3,4) ty fin by (simp add: download_def Let_def)
  then show ?thesis by (simp add: translate_no_link finish_def)
qed

theorem missing_download_url_fails_witness:
  "download (stub_env (Inr \<lparr>videoDetails_title = ''Clip'', formats = [audio_only (Num 128) []]\<rparr>)
               (Inl ''unused'') (Inl ''unused''))
      (Some \<lparr>body_url = Some ''https://www.youtube.com/watch?v=X'', body_type = Some ''audio''\<rparr>)
     = (Failure 500 ''No download link available'',
        [Contacted YtdlCore ''https://www.youtube.com/watch?v=X'',
         Logged ''Download endpoint error: No download link available''])"
proof -
  let ?E = "stub_env (Inr \<lparr>videoDetails_title = ''Clip'', formats = [audio_only (Num 128) []]\<rparr>)
               (Inl ''unused'') (Inl ''unused'')"
  let ?b = "\<lparr>body_url = Some ''https://www.youtube.com/watch?v=X'', body_type = Some ''audio''\<rparr>"
  let ?r = "\<lparr>title = ''Clip'', format = ''MP3'', filesize = ''0 Bytes'', download_url = Some []\<rparr>"
  have 1: "truthy (body_url ?b)" by code_simp
  have 2: "body_type ?b \<in> {None, Some ''video'', Some ''audio''}" by simp
  have 3: "validateVideoUrl ?E (or_else (body_url ?b) []) = Valid ''youtube.com''" by code_simp
  have 4: "dispatch ?E ''youtube.com'' (or_else (body_url ?b) [])
             (case body_type ?b of None \<Rightarrow> ''video'' | Some t \<Rightarrow> t)
           = (Inr ?r, [Contacted YtdlCore ''https://www.youtube.com/watch?v=X''])"
    by code_simp
  have 5: "\<not> truthy (download_url ?r)" by code_simp
  from missing_download_url_fails[OF 1 2 3 4 5] show ?thesis by simp
qed

text \<open>
  A request whose body is an object without url (absent or empty) is answered with
  HTTP 400 and a message that mentions \<open>required\<close>, by both handlers, and no provider
  is contacted.
\<close>

lemma present_body_without_url:
  "\<not> truthy (body_url b) \<Longrightarrow>
     download E (Some b) = (Failure 400 ''Video URL is required'', [])
     \<and> download_js E ''POST'' (Some b) = (Failure 400 ''Video URL is required'', [])
     \<and> str_includes ''Video URL is required'' ''required''"
  by (simp add: download_def download_js_def Let_def)

lemma translate_js_destructure_error:
  "translate_js destructure_error = ''Failed to process the video URL''"
  by code_simp

lemma translate_destructure_error: "translate destructure_error = destructure_error"
  by code_simp

text \<open>
  The Express handler behaves in the same way whenever \<open>express.json()\<close> leaves
  \<open>req.body\<close> undefined: the answer is 500 with the text of the \<open>TypeError\<close>.
\<close>

lemma absent_body_express:
  "download E None =
     (Failure 500 destructure_error, [Logged (''Download endpoint error: '' @ destructure_error)])"
  by (simp add: download_def translate_destructure_error)

text \<open>
  Claim C9: a POST request whose body has no url (absent or empty) is answered with
  HTTP 400 and a message that mentions \<open>required\<close>, and no provider is contacted. The
  guard \<open>if (!url)\<close> does this for every body that is an object; but the handlers
  destructure \<open>req.body\<close> before the guard, so a POST without any body, which has no url
  either, throws inside the \<open>try\<close>. In \<^verbatim>\<open>api/download.js\<close> the \<open>catch\<close> answers it
  with status 500 and \<open>Failed to process the video URL\<close>, a message that does not mention
  \<open>required\<close>.
\<close>

theorem absent_body_answers_500:
  "download_js (stub_env (Inl ''unused'') (Inl ''unused'') (Inl ''unused'')) ''POST'' None
     = (Failure 500 ''Failed to process the video URL'', [Logged (''Error: '' @ destructure_error)])
   \<and> \<not> str_includes ''Failed to process the video URL'' ''required''"
  by code_simp

lemma finish_title: "finish type (Some r) = Inr p \<Longrightarrow>
   title p = (if title r = [] then ''Video Download'' else title r)"
  by (auto simp: finish_def split: if_splits)

lemma download_success:
  "fst (download E b) = Success p \<Longrightarrow> \<exists>type r. finish type (Some r) = Inr p"
  by (auto simp: download_def Let_def
           split: option.splits if_splits validation.splits prod.splits sum.splits)

lemma download_status_200:
  "status (fst (download E b)) = 200 \<Longrightarrow> \<exists>p. fst (download E b) = Success p"
  by (cases "fst (download E b)")
     (auto simp: download_def Let_def
            split: option.splits if_splits validation.splits prod.splits sum.splits)

text \<open>
  Claim C10: every response of the download endpoint with status 200 carries a non-empty
  title. The sanitizer can empty a title (one made of the characters
  \<open>< > : " / \ | ? *\<close> only), and the endpoint replaces an empty title by
  \<open>Video Download\<close>.
\<close>

theorem success_title_nonempty:
  "(status (fst (download E b)) = 200 \<longrightarrow>
      (\<exists>p. fst (download E b) = Success p \<and> title p \<noteq> []))
   \<and> sanitize unsafe_chars = []
   \<and> (finish type (Some r) = Inr p' \<longrightarrow>
        title p' = (if title r = [] then ''Video Download'' else title r))"
proof -
  have a: "\<exists>p. fst (download E b) = Success p \<and> title p \<noteq> []"
    if "status (fst (download E b)) = 200"
  proof -
    from download_status_200[OF that] obtain p where p: "fst (download E b) = Success p" by blast
    from download_success[OF p] obtain type r where "finish type (Some r) = Inr p" by blast
    from finish_title[OF this] have "title p \<noteq> []" by (auto split: if_splits)
    with p show ?thesis by blast
  qed
  have b: "sanitize unsafe_chars = []" by (simp add: sanitize_def)
  have c: "title p' = (if title r = [] then ''Video Download'' else title r)"
    if "finish type (Some r) = Inr p'"
    using that by (rule finish_title)
  from a b c show ?thesis by (intro conjI impI)
qed

theorem success_title_nonempty_witness:
  "status (fst (download (stub_env (Inr \<lparr>videoDetails_title = unsafe_chars,
                                        formats = [audio_only (Num 128) ''https://cdn.test/a'']\<rparr>)
                  (Inl ''unused'') (Inl ''unused''))
        (Some \<lparr>body_url = Some ''https://www.youtube.com/watch?v=X'', body_type = Some ''audio''\<rparr>))) = 200
   \<and> fst (download (stub_env (Inr \<lparr>videoDetails_title = unsafe_chars,
                                        formats = [audio_only (Num 128) ''https://cdn.test/a'']\<rparr>)
                  (Inl ''unused'') (Inl ''unused''))
        (Some \<lparr>body_url = Some ''https://www.youtube.com/watch?v=X'', body_type = Some ''audio''\<rparr>))
      = Success \<lparr>title = ''Video Download'', format = ''MP3'', filesize = ''0 Bytes'',
                 download_url = Some ''https://cdn.test/a''\<rparr>
   \<and> title \<lparr>title = ''Video Download'', format = ''MP3'', filesize = ''0 Bytes'',
                 download_url = Some ''https://cdn.test/a''\<rparr> \<noteq> []"
proof -
  let ?E = "stub_env (Inr \<lparr>videoDetails_title = unsafe_chars,
                                        formats = [audio_only (Num 128) ''https://cdn.test/a'']\<rparr>)
                  (Inl ''unused'') (Inl ''unused'')"
  let ?b = "Some \<lparr>body_url = Some ''https://www.youtube.com/watch?v=X'', body_type = Some ''audio''\<rparr>"
  let ?p = "\<lparr>title = ''Video Download'', format = ''MP3'', filesize = ''0 Bytes'',
                 download_url = Some ''https://cdn.test/a''\<rparr>"
  have ev: "fst (download ?E ?b) = Success ?p" by code_simp
  then have st: "status (fst (download ?E ?b)) = 200" by (simp only: status.simps)
  note ex = success_title_nonempty[of ?E ?b, THEN conjunct1, THEN mp, OF st]
  then obtain q where q: "fst (download ?E ?b) = Success q" "title q \<noteq> []"
    by (elim exE conjE)
  from trans[OF q(1)[symmetric] ev] have qp: "q = ?p" by (simp only: response.inject)
  from q(2) have "title ?p \<noteq> []" unfolding qp .
  with st ev show ?thesis by (intro conjI)
qed

text \<open>
  The serverless handler has no such default: there an emptied title is returned as it is.
\<close>

lemma download_js_empty_title:
  "fst (download_js (stub_env (Inr \<lparr>videoDetails_title = unsafe_chars,
                                  formats = [audio_only (Num 128) ''https://cdn.test/a'']\<rparr>)
                  (Inl ''unused'') (Inl ''unused'')) ''POST''
        (Some \<lparr>body_url = Some ''https://www.youtube.com/watch?v=X'', body_type = Some ''audio''\<rparr>))
     = Success \<lparr>title = [], format = ''MP3'', filesize = ''Unknown'',
                download_url = Some ''https://cdn.test/a''\<rparr>"
  by code_simp

section \<open>The generic adapter and the Instagram fallback\<close>

lemma genericTry_events:
  "e \<in> set (snd (genericTry E url type)) \<Longrightarrow> e = Contacted YoutubeDl url"
  by (auto simp: genericTry_def Let_def split: sum.splits option.splits if_splits prod.splits)

text \<open>
  The adapter recognises an Instagram URL by \<open>url.includes('instagram.com')\<close> on the
  whole URL. A Vimeo URL that mentions \<open>instagram.com\<close> in its query passes validation
  with the domain \<open>vimeo.com\<close>, and when the generic engine fails on it the Instagram
  extractor is called.
\<close>

theorem fallback_on_other_platform:
  "hostname (stub_env (Inl ''unused'') (Inl ''Unsupported URL'') (Inl ''no media''))
       ''https://vimeo.com/v?ref=instagram.com'' = Some ''vimeo.com''
   \<and> \<not> str_includes ''vimeo.com'' ''instagram.com''
   \<and> validateVideoUrl (stub_env (Inl ''unused'') (Inl ''Unsupported URL'') (Inl ''no media''))
       ''https://vimeo.com/v?ref=instagram.com'' = Valid ''vimeo.com''
   \<and> download (stub_env (Inl ''unused'') (Inl ''Unsupported URL'') (Inl ''no media''))
       (Some \<lparr>body_url = Some ''https://vimeo.com/v?ref=instagram.com'', body_type = None\<rparr>)
     = (Failure 500 ''Failed to download video: Unsupported URL'',
        [Contacted YoutubeDl ''https://vimeo.com/v?ref=instagram.com'',
         Logged ''Generic download error: Unsupported URL'',
         Contacted InstagramDirect ''https://vimeo.com/v?ref=instagram.com'',
         Logged ''Instagram fallback failed: no media'',
         Logged ''Download endpoint error: Failed to download video: Unsupported URL''])"
  by code_simp

text \<open>
  Claim C8, amended: for a URL that contains \<open>instagram.com\<close> anywhere and on which the
  generic attempt fails with a message, the Instagram extractor is called; if it yields at
  least one link, the result has the title \<open>Instagram Video\<close>, format \<open>MP4\<close>, filesize \<open>Unknown\<close> and
  the first link as \<open>download_url\<close>; if it throws, its message is only logged and the
  generic error is rethrown (prefixed with \<open>Failed to download video: \<close>); if it yields no
  link the generic error is rethrown as well. The extractor is not called for a URL without
  \<open>instagram.com\<close> or when the generic attempt succeeds.
\<close>

theorem instagram_fallback:
  "(str_includes url ''instagram.com'' \<and> fst (genericTry E url type) = Inl msg \<longrightarrow>
      Contacted InstagramDirect url \<in> set (snd (getGenericInfo E url type))
      \<and> (\<forall>link links. getInstagram E url = Inr (Some (Some (link # links))) \<longrightarrow>
            fst (getGenericInfo E url type) =
              Inr \<lparr>title = ''Instagram Video'', format = ''MP4'', filesize = ''Unknown'',
                   download_url = Some link\<rparr>)
      \<and> (\<forall>igmsg. getInstagram E url = Inl igmsg \<longrightarrow>
            fst (getGenericInfo E url type) = Inl (''Failed to download video: '' @ msg)
            \<and> Logged (''Instagram fallback failed: '' @ igmsg)
                \<in> set (snd (getGenericInfo E url type)))
      \<and> (getInstagram E url \<in> {Inr None, Inr (Some None), Inr (Some (Some []))} \<longrightarrow>
            fst (getGenericInfo E url type) = Inl (''Failed to download video: '' @ msg)))
   \<and> (\<not> str_includes url ''instagram.com'' \<or> (\<exists>r. fst (genericTry E url type) = Inr r) \<longrightarrow>
        Contacted InstagramDirect url \<notin> set (snd (getGenericInfo E url type)))"
proof -
  obtain out tr where g: "genericTry E url type = (out, tr)" by (cases "genericTry E url type")
  have tr: "Contacted InstagramDirect url \<notin> set tr"
    using genericTry_events[of "Contacted InstagramDirect url" E url type] g by auto
  have A: "Contacted InstagramDirect url \<in> set (snd (getGenericInfo E url type))"
    if "str_includes url ''instagram.com''" "out = Inl msg"
    using that g
    by (auto simp: getGenericInfo_def Let_def split: sum.splits option.splits list.splits)
  have B: "fst (getGenericInfo E url type) =
              Inr \<lparr>title = ''Instagram Video'', format = ''MP4'', filesize = ''Unknown'',
                   download_url = Some link\<rparr>"
    if "str_includes url ''instagram.com''" "out = Inl msg"
       "getInstagram E url = Inr (Some (Some (link # links)))" for link links
    using that g by (simp add: getGenericInfo_def Let_def)
  have C: "fst (getGenericInfo E url type) = Inl (''Failed to download video: '' @ msg)
            \<and> Logged (''Instagram fallback failed: '' @ igmsg)
                \<in> set (snd (getGenericInfo E url type))"
    if "str_includes url ''instagram.com''" "out = Inl msg" "getInstagram E url = Inl igmsg" for igmsg
    using that g by (simp add: getGenericInfo_def Let_def)
  have D: "fst (getGenericInfo E url type) = Inl (''Failed to download video: '' @ msg)"
    if "str_includes url ''instagram.com''" "out = Inl msg"
       "getInstagram E url \<in> {Inr None, Inr (Some None), Inr (Some (Some []))}"
    using that g by (auto simp: getGenericInfo_def Let_def)
  have F: "Contacted InstagramDirect url \<notin> set (snd (getGenericInfo E url type))"
    if "\<not> str_includes url ''instagram.com'' \<or> (\<exists>r. out = Inr r)"
    using that g tr by (cases out) (auto simp: getGenericInfo_def Let_def)
  from A B C D F g show ?thesis by simp
qed

theorem instagram_fallback_witness:
  "str_includes ''https://www.instagram.com/reel/abc'' ''instagram.com''
   \<and> fst (genericTry (stub_env (Inl ''unused'') (Inl ''Unsupported URL'')
                        (Inr (Some (Some [''https://cdn.test/ig.mp4'']))))
             ''https://www.instagram.com/reel/abc'' ''video'') = Inl ''Unsupported URL''
   \<and> Contacted InstagramDirect ''https://www.instagram.com/reel/abc''
        \<in> set (snd (getGenericInfo (stub_env (Inl ''unused'') (Inl ''Unsupported URL'')
                        (Inr (Some (Some [''https://cdn.test/ig.mp4'']))))
             ''https://www.instagram.com/reel/abc'' ''video''))
   \<and> fst (getGenericInfo (stub_env (Inl ''unused'') (Inl ''Unsupported URL'')
                        (Inr (Some (Some [''https://cdn.test/ig.mp4'']))))
             ''https://www.instagram.com/reel/abc'' ''video'')
       = Inr \<lparr>title = ''Instagram Video'', format = ''MP4'', filesize = ''Unknown'',
              download_url = Some ''https://cdn.test/ig.mp4''\<rparr>"
proof -
  let ?E = "stub_env (Inl ''unused'') (Inl ''Unsupported URL'')
                        (Inr (Some (Some [''https://cdn.test/ig.mp4''])))"
  let ?u = "''https://www.instagram.com/reel/abc''"
  have 1: "str_includes ?u ''instagram.com''" by code_simp
  have 2: "fst (genericTry ?E ?u ''video'') = Inl ''Unsupported URL''" by code_simp
  have 3: "getInstagram ?E ?u = Inr (Some (Some [''https://cdn.test/ig.mp4'']))"
    by (simp add: stub_env_def)
  from instagram_fallback[of ?u ?E "''video''" "''Unsupported URL''"] 1 2 3
  show ?thesis by blast
qed

end
